theory Spec2Isabelle
  imports Main
begin

section \<open>The stored data of core/views.py\<close>

text \<open>
  The views of \<^verbatim>\<open>core/views.py\<close> read and write four tables through the
  object-relational mapper (User, Profile, Post, LikePost) and the session of the
  requesting client. A table without a key of its own in the views is a list of rows in
  the order of insertion, which is the order of the automatic primary key: the position
  of a row is its identity. The Post table is read by \<^verbatim>\<open>Post.objects.get(id=...)\<close>
  and is a map from the key to the row. The type \<open>'k\<close> of the key is fixed by the
  Post declaration, which is not among the sources, and stays a parameter. A Like row
  stores the text that the request carried in \<^verbatim>\<open>post_id\<close>, not the key. A user
  is referred to by the username, which the account service keeps unique.
\<close>

datatype credential = Hashed string

record user =
  username :: string
  email :: string
  password :: credential

record profile =
  profile_user :: string
  profileimg :: "string option"
  bio :: string
  location :: string

record post =
  post_user :: string
  image :: "string option"
  caption :: string
  no_of_likes :: int

record likepost =
  like_post_id :: string
  like_username :: string

record 'k state =
  users :: "user list"
  profiles :: "profile list"
  posts :: "'k \<rightharpoonup> post"
  likes :: "likepost list"
  sessions :: "nat \<rightharpoonup> string"

record request =
  client :: nat
  req_method :: string
  GET :: "string \<rightharpoonup> string"
  POST :: "string \<rightharpoonup> string"
  FILES :: "string \<rightharpoonup> string"

datatype error =
  DoesNotExist
  | MultipleObjectsReturned
  | MultiValueDictKeyError
  | IntegrityError
  | AttributeError
  | ValueError

datatype response = Redirect string | Render string

text \<open>
  A view either raises (nothing in the views catches it, the request ends as a server
  error) or answers with a response, after the messages it has flashed with
  \<^verbatim>\<open>messages.info\<close>. The state is returned in both cases: the views run without
  a transaction, so what was written before a raise stays written.
\<close>

datatype outcome = Raised error | Responded "string list" response

type_synonym 'k view = "request \<Rightarrow> 'k state \<Rightarrow> outcome \<times> 'k state"

text \<open>
  What the views take from outside. The Post declaration fixes how the lookup
  \<^verbatim>\<open>Post.objects.get(id=post_id)\<close> reads the text of an identifier as a key
  (\<open>to_key\<close>; a text that is no key makes the lookup raise: ValueError for an integer
  key, a validation error for a UUID, both \<open>ValueError\<close> here). Several texts can
  read as one key: 1 and 01 as an integer, the upper and lower case of a UUID. The
  account service puts the username and the email it stores into a normal form.
\<close>

record 'k framework =
  to_key :: "string \<Rightarrow> 'k option"
  normalize_username :: "string \<Rightarrow> string"
  normalize_email :: "string \<Rightarrow> string"

section \<open>The mapper's queries\<close>

text \<open>\<^verbatim>\<open>filter(...).first()\<close>: the position of the first row that matches, if any.\<close>

fun first_pos :: "('a \<Rightarrow> bool) \<Rightarrow> 'a list \<Rightarrow> nat option" where
  "first_pos P [] = None"
| "first_pos P (x # xs) = (if P x then Some 0 else map_option Suc (first_pos P xs))"

text \<open>\<^verbatim>\<open>row.delete()\<close>: the row at that position leaves the table, no other row does.\<close>

fun delete_at :: "nat \<Rightarrow> 'a list \<Rightarrow> 'a list" where
  "delete_at n [] = []"
| "delete_at 0 (x # xs) = xs"
| "delete_at (Suc n) (x # xs) = x # delete_at n xs"

text \<open>
  \<^verbatim>\<open>objects.get(...)\<close>: the one matching row with its position; no match raises
  DoesNotExist, several raise MultipleObjectsReturned.
\<close>

definition objects_get :: "('a \<Rightarrow> bool) \<Rightarrow> 'a list \<Rightarrow> error + (nat \<times> 'a)" where
  "objects_get P xs =
     (case filter P xs of
        [] \<Rightarrow> Inl DoesNotExist
      | [x] \<Rightarrow> (case first_pos P xs of None \<Rightarrow> Inl DoesNotExist | Some i \<Rightarrow> Inr (i, x))
      | _ \<Rightarrow> Inl MultipleObjectsReturned)"

text \<open>\<^verbatim>\<open>filter(...).exists()\<close>.\<close>

definition exists_row :: "('a \<Rightarrow> bool) \<Rightarrow> 'a list \<Rightarrow> bool" where
  "exists_row P xs = (filter P xs \<noteq> [])"

section \<open>Sessions and the login gate\<close>

definition request_user :: "'k state \<Rightarrow> request \<Rightarrow> string option" where
  "request_user st req = sessions st (client req)"

text \<open>
  \<^verbatim>\<open>@login_required(login_url='signin')\<close>: an anonymous request is answered by a
  redirect to the login URL and the view does not run; otherwise the view runs with
  \<^verbatim>\<open>request.user.username\<close>.
\<close>

definition login_required :: "string \<Rightarrow> (string \<Rightarrow> 'k view) \<Rightarrow> 'k view" where
  "login_required login_url v req st =
     (case request_user st req of
        None \<Rightarrow> (Responded [] (Redirect login_url), st)
      | Some u \<Rightarrow> v u req st)"

section \<open>The like toggle\<close>

definition like_matches :: "string \<Rightarrow> string \<Rightarrow> likepost \<Rightarrow> bool" where
  "like_matches pid u l = (like_post_id l = pid \<and> like_username l = u)"

definition like_post_view :: "'k framework \<Rightarrow> string \<Rightarrow> 'k view" where
  "like_post_view fw u req st =
     (case GET req ''post_id'' of
        None \<Rightarrow> (Raised DoesNotExist, st)
      | Some pid \<Rightarrow>
          (case to_key fw pid of
             None \<Rightarrow> (Raised ValueError, st)
           | Some k \<Rightarrow>
          (case posts st k of
             None \<Rightarrow> (Raised DoesNotExist, st)
           | Some p \<Rightarrow>
               (case first_pos (like_matches pid u) (likes st) of
                  None \<Rightarrow>
                    (Responded [] (Redirect ''/''),
                     st\<lparr>likes := likes st @ [\<lparr>like_post_id = pid, like_username = u\<rparr>],
                        posts := (posts st)(k \<mapsto> p\<lparr>no_of_likes := no_of_likes p + 1\<rparr>)\<rparr>)
                | Some i \<Rightarrow>
                    (Responded [] (Redirect ''/''),
                     st\<lparr>likes := delete_at i (likes st),
                        posts := (posts st)(k \<mapsto> p\<lparr>no_of_likes := no_of_likes p - 1\<rparr>)\<rparr>)))))"

definition like_post :: "'k framework \<Rightarrow> 'k view" where
  "like_post fw = login_required ''signin'' (like_post_view fw)"

section \<open>Accounts\<close>

text \<open>
  The account service of the framework is used through three calls. The credential is
  stored hashed and only ever compared: \<open>check_password\<close> is that comparison.
  \<^verbatim>\<open>create_user\<close> refuses an empty username with ValueError before it writes
  anything; otherwise it inserts a row with the username and the email in normal form,
  unless an account of that username exists (IntegrityError). \<^verbatim>\<open>authenticate\<close>
  looks the account up by the name as given (an unknown name or a wrong password gives
  no user, several accounts of one name raise); \<^verbatim>\<open>login\<close> binds the client's
  session to the user and raises on no user.
\<close>

definition check_password :: "string \<Rightarrow> credential \<Rightarrow> bool" where
  "check_password raw c = (c = Hashed raw)"

definition create_user ::
    "'k framework \<Rightarrow> string \<Rightarrow> string \<Rightarrow> string \<Rightarrow> 'k state \<Rightarrow> error + (user \<times> 'k state)" where
  "create_user fw n e pw st =
     (if n = [] then Inl ValueError
      else
        (let u = \<lparr>username = normalize_username fw n, email = normalize_email fw e,
                   password = Hashed pw\<rparr>
         in if exists_row (\<lambda>x. username x = username u) (users st) then Inl IntegrityError
            else Inr (u, st\<lparr>users := users st @ [u]\<rparr>)))"

definition authenticate :: "string \<Rightarrow> string \<Rightarrow> 'k state \<Rightarrow> error + user option" where
  "authenticate n pw st =
     (case objects_get (\<lambda>u. username u = n) (users st) of
        Inl DoesNotExist \<Rightarrow> Inr None
      | Inl e \<Rightarrow> Inl e
      | Inr (i, u) \<Rightarrow> (if check_password pw (password u) then Inr (Some u) else Inr None))"

definition login :: "request \<Rightarrow> user option \<Rightarrow> 'k state \<Rightarrow> error + 'k state" where
  "login req user_login st =
     (case user_login of
        None \<Rightarrow> Inl AttributeError
      | Some u \<Rightarrow> Inr (st\<lparr>sessions := (sessions st)(client req \<mapsto> username u)\<rparr>))"

text \<open>
  Modelled from the spec: the Profile declaration (models.py) is not among the sources.
  A Profile created with its owner alone is the data model's empty one: placeholder
  avatar, no bio, no location.
\<close>

definition empty_profile :: "string \<Rightarrow> profile" where
  "empty_profile u = \<lparr>profile_user = u, profileimg = None, bio = [], location = []\<rparr>"

definition Profile_objects_create :: "string \<Rightarrow> 'k state \<Rightarrow> 'k state" where
  "Profile_objects_create u st = st\<lparr>profiles := profiles st @ [empty_profile u]\<rparr>"

definition signup :: "'k framework \<Rightarrow> 'k view" where
  "signup fw req st =
     (if req_method req = ''POST'' then
        (case POST req ''username'' of
           None \<Rightarrow> (Raised MultiValueDictKeyError, st)
         | Some n \<Rightarrow>
        (case POST req ''email'' of
           None \<Rightarrow> (Raised MultiValueDictKeyError, st)
         | Some e \<Rightarrow>
        (case POST req ''password'' of
           None \<Rightarrow> (Raised MultiValueDictKeyError, st)
         | Some pw \<Rightarrow>
        (case POST req ''password2'' of
           None \<Rightarrow> (Raised MultiValueDictKeyError, st)
         | Some pw2 \<Rightarrow>
             if pw = pw2 then
               if exists_row (\<lambda>u. email u = e) (users st) then
                 (Responded [''This email already exists''] (Redirect ''signup''), st)
               else if exists_row (\<lambda>u. username u = n) (users st) then
                 (Responded [''Username is taken''] (Redirect ''signup''), st)
               else
                 (case create_user fw n e pw st of
                    Inl err \<Rightarrow> (Raised err, st)
                  | Inr (u, st1) \<Rightarrow>
                  (case authenticate n pw st1 of
                     Inl err \<Rightarrow> (Raised err, st1)
                   | Inr user_login \<Rightarrow>
                  (case login req user_login st1 of
                     Inl err \<Rightarrow> (Raised err, st1)
                   | Inr st2 \<Rightarrow>
                       (Responded [] (Redirect ''settings''),
                        Profile_objects_create (username u) st2))))
             else
               (Responded [''Password Not Matching''] (Redirect ''signup''), st)))))
      else (Responded [] (Render ''signup.html''), st))"

definition profile :: "'k view" where
  "profile req st = (Responded [] (Render ''profile.html''), st)"

definition signin :: "'k view" where
  "signin req st =
     (if req_method req = ''POST'' then
        (case POST req ''username'' of
           None \<Rightarrow> (Raised MultiValueDictKeyError, st)
         | Some n \<Rightarrow>
        (case POST req ''password'' of
           None \<Rightarrow> (Raised MultiValueDictKeyError, st)
         | Some pw \<Rightarrow>
        (case authenticate n pw st of
           Inl err \<Rightarrow> (Raised err, st)
         | Inr None \<Rightarrow> (Responded [''Credentials Invalid''] (Redirect ''/signin''), st)
         | Inr (Some u) \<Rightarrow>
             (case login req (Some u) st of
                Inl err \<Rightarrow> (Raised err, st)
              | Inr st1 \<Rightarrow> (Responded [] (Redirect ''/''), st1)))))
      else (Responded [] (Render ''signin.html''), st))"

definition logout :: "'k view" where
  "logout req st =
     (Responded [] (Redirect ''signin''), st\<lparr>sessions := (sessions st)(client req := None)\<rparr>)"

section \<open>The feed, the settings page and the upload\<close>

definition index_view :: "string \<Rightarrow> 'k view" where
  "index_view u req st =
     (case objects_get (\<lambda>x. username x = u) (users st) of
        Inl err \<Rightarrow> (Raised err, st)
      | Inr (i, user_object) \<Rightarrow>
          (case objects_get (\<lambda>p. profile_user p = username user_object) (profiles st) of
             Inl err \<Rightarrow> (Raised err, st)
           | Inr (j, user_profile) \<Rightarrow> (Responded [] (Render ''index.html''), st)))"

definition index :: "'k view" where
  "index = login_required ''signin'' index_view"

text \<open>
  \<^verbatim>\<open>ProfileForm\<close> exposes the fields profileimg, bio and location of a Profile. Its
  validation is the framework's and depends on the Profile declaration, so it is a
  parameter: bound to the request and the instance it gives no cleaned data
  (\<^verbatim>\<open>is_valid()\<close> is false) or the cleaned values of the three fields, which
  \<^verbatim>\<open>form.save()\<close> writes to the instance's row.
\<close>

type_synonym ProfileForm = "request \<Rightarrow> profile \<Rightarrow> (string option \<times> string \<times> string) option"

definition form_save :: "nat \<Rightarrow> profile \<Rightarrow> string option \<times> string \<times> string \<Rightarrow> 'k state \<Rightarrow> 'k state" where
  "form_save i inst cleaned st =
     (case cleaned of (img, b, l) \<Rightarrow>
        st\<lparr>profiles := (profiles st)[i := inst\<lparr>profileimg := img, bio := b, location := l\<rparr>]\<rparr>)"

definition settings_page :: "ProfileForm \<Rightarrow> nat \<Rightarrow> profile \<Rightarrow> 'k view" where
  "settings_page form i user_profile req st =
     (if req_method req = ''POST'' then
        (case form req user_profile of
           Some cleaned \<Rightarrow>
             (Responded [] (Redirect ''settings''), form_save i user_profile cleaned st)
         | None \<Rightarrow> (Responded [] (Render ''setting.html''), st))
      else (Responded [] (Render ''setting.html''), st))"

definition settings_view :: "ProfileForm \<Rightarrow> string \<Rightarrow> 'k view" where
  "settings_view form u req st =
     (case objects_get (\<lambda>p. profile_user p = u) (profiles st) of
        Inl DoesNotExist \<Rightarrow>
          settings_page form (length (profiles st)) (empty_profile u) req
            (Profile_objects_create u st)
      | Inl err \<Rightarrow> (Raised err, st)
      | Inr (i, user_profile) \<Rightarrow> settings_page form i user_profile req st)"

definition settings :: "ProfileForm \<Rightarrow> 'k view" where
  "settings form = login_required ''signin'' (settings_view form)"

text \<open>
  Modelled from the spec: the Post declaration (models.py) is not among the sources.
  By the data model the image reference is required and the like counter defaults to 0;
  the key is chosen by the store (\<open>new_id\<close>), and a row
  without an image or with a key already in use is refused.
\<close>

definition Post_objects_create ::
    "'k \<Rightarrow> string \<Rightarrow> string option \<Rightarrow> string \<Rightarrow> 'k state \<Rightarrow> error + 'k state" where
  "Post_objects_create new_id u img c st =
     (case img of
        None \<Rightarrow> Inl IntegrityError
      | Some f \<Rightarrow>
          (if posts st new_id \<noteq> None then Inl IntegrityError
           else Inr (st\<lparr>posts := (posts st)(new_id \<mapsto>
                  \<lparr>post_user = u, image = Some f, caption = c, no_of_likes = 0\<rparr>)\<rparr>)))"

definition upload_view :: "'k \<Rightarrow> string \<Rightarrow> 'k view" where
  "upload_view new_id u req st =
     (if req_method req = ''POST'' then
        (case POST req ''caption'' of
           None \<Rightarrow> (Raised MultiValueDictKeyError, st)
         | Some c \<Rightarrow>
             (case Post_objects_create new_id u (FILES req ''image_upload'') c st of
                Inl err \<Rightarrow> (Raised err, st)
              | Inr st1 \<Rightarrow> (Responded [] (Redirect ''/''), st1)))
      else (Responded [] (Redirect ''/''), st))"

definition upload :: "'k \<Rightarrow> 'k view" where
  "upload new_id = login_required ''signin'' (upload_view new_id)"

section \<open>Sequential execution\<close>

datatype 'k call =
  Index | LikePost | Signup | ProfilePage | Signin | Settings ProfileForm | Logout | Upload 'k

fun run :: "'k framework \<Rightarrow> 'k call \<Rightarrow> 'k view" where
  "run fw Index = index"
| "run fw LikePost = like_post fw"
| "run fw Signup = signup fw"
| "run fw ProfilePage = profile"
| "run fw Signin = signin"
| "run fw (Settings form) = settings form"
| "run fw Logout = logout"
| "run fw (Upload new_id) = upload new_id"

fun execute :: "'k framework \<Rightarrow> ('k call \<times> request) list \<Rightarrow> 'k state \<Rightarrow> 'k state" where
  "execute fw [] st = st"
| "execute fw ((c, req) # cs) st = execute fw cs (snd (run fw c req st))"

section \<open>The invariant of the like ledger\<close>

text \<open>The Like rows that carry a given identifier text and username.\<close>

definition likes_of_pair :: "'k state \<Rightarrow> string \<Rightarrow> string \<Rightarrow> nat" where
  "likes_of_pair st pid u = length (filter (like_matches pid u) (likes st))"

definition one_like_per_text :: "'k state \<Rightarrow> bool" where
  "one_like_per_text st = (\<forall>pid u. likes_of_pair st pid u \<le> 1)"

text \<open>The Like rows that reference a Post: those whose identifier text reads as its key.\<close>

definition like_refers :: "'k framework \<Rightarrow> 'k \<Rightarrow> likepost \<Rightarrow> bool" where
  "like_refers fw k l = (to_key fw (like_post_id l) = Some k)"

definition likes_of_post :: "'k framework \<Rightarrow> 'k state \<Rightarrow> 'k \<Rightarrow> nat" where
  "likes_of_post fw st k = length (filter (like_refers fw k) (likes st))"

definition likes_of_user_post :: "'k framework \<Rightarrow> 'k state \<Rightarrow> 'k \<Rightarrow> string \<Rightarrow> nat" where
  "likes_of_user_post fw st k u =
     length (filter (\<lambda>l. like_refers fw k l \<and> like_username l = u) (likes st))"

definition one_like_per_pair :: "'k framework \<Rightarrow> 'k state \<Rightarrow> bool" where
  "one_like_per_pair fw st = (\<forall>k u. likes_of_user_post fw st k u \<le> 1)"

definition counters_exact :: "'k framework \<Rightarrow> 'k state \<Rightarrow> bool" where
  "counters_exact fw st =
     (\<forall>k p. posts st k = Some p \<longrightarrow> no_of_likes p = int (likes_of_post fw st k))"

definition likes_reference_posts :: "'k framework \<Rightarrow> 'k state \<Rightarrow> bool" where
  "likes_reference_posts fw st =
     (\<forall>l \<in> set (likes st). \<exists>k. like_refers fw k l \<and> posts st k \<noteq> None)"

definition consistent :: "'k framework \<Rightarrow> 'k state \<Rightarrow> bool" where
  "consistent fw st =
     (one_like_per_pair fw st \<and> counters_exact fw st \<and> likes_reference_posts fw st)"

text \<open>The same with one Like row per user and identifier text, which is what the views test.\<close>

definition text_consistent :: "'k framework \<Rightarrow> 'k state \<Rightarrow> bool" where
  "text_consistent fw st =
     (one_like_per_text st \<and> counters_exact fw st \<and> likes_reference_posts fw st)"

text \<open>A key type under which every key is the reading of one text only.\<close>

definition unique_spelling :: "'k framework \<Rightarrow> bool" where
  "unique_spelling fw =
     (\<forall>s t k. to_key fw s = Some k \<longrightarrow> to_key fw t = Some k \<longrightarrow> s = t)"

definition profiles_of :: "'k state \<Rightarrow> string \<Rightarrow> nat" where
  "profiles_of st u = length (filter (\<lambda>p. profile_user p = u) (profiles st))"

text \<open>
  The data model's ownership of profiles: a user has at most one Profile, and profiles
  and sessions belong to accounts that exist.
\<close>

definition accounts_consistent :: "'k state \<Rightarrow> bool" where
  "accounts_consistent st =
     ((\<forall>u. profiles_of st u \<le> 1) \<and>
      (\<forall>n \<in> set (map profile_user (profiles st)). \<exists>x \<in> set (users st). username x = n) \<and>
      (\<forall>c u. sessions st c = Some u \<longrightarrow> (\<exists>x \<in> set (users st). username x = u)))"

definition empty_state :: "'k state" where
  "empty_state = \<lparr>users = [], profiles = [], posts = Map.empty, likes = [], sessions = Map.empty\<rparr>"

section \<open>Example data\<close>

text \<open>
  An integer key read in decimal digits, so that 1 and 01 are one key, and an account
  service that finds the submitted names and emails in normal form already.
\<close>

definition digit :: "char \<Rightarrow> nat option" where
  "digit c = first_pos (\<lambda>d. d = c) ''0123456789''"

fun digits :: "nat \<Rightarrow> string \<Rightarrow> nat option" where
  "digits a [] = Some a"
| "digits a (c # cs) = (case digit c of None \<Rightarrow> None | Some d \<Rightarrow> digits (10 * a + d) cs)"

definition decimal :: "string \<Rightarrow> nat option" where
  "decimal s = (if s = [] then None else digits 0 s)"

definition integer_keys :: "nat framework" where
  "integer_keys =
     \<lparr>to_key = decimal, normalize_username = (\<lambda>n. n), normalize_email = (\<lambda>e. e)\<rparr>"

text \<open>
  The scenario of the specification: alice has uploaded a post with the caption hello
  (key 1), bob is signed in on client 1 and asks to like it; client 2 has no session.
\<close>

definition alice :: user where
  "alice = \<lparr>username = ''alice'', email = ''alice@example.org'', password = Hashed ''a-secret''\<rparr>"

definition bob :: user where
  "bob = \<lparr>username = ''bob'', email = ''bob@example.org'', password = Hashed ''b-secret''\<rparr>"

definition hello_post :: post where
  "hello_post =
     \<lparr>post_user = ''alice'', image = Some ''hello.png'', caption = ''hello'', no_of_likes = 0\<rparr>"

definition bob_like :: likepost where
  "bob_like = \<lparr>like_post_id = ''1'', like_username = ''bob''\<rparr>"

definition feed_state :: "nat state" where
  "feed_state =
     \<lparr>users = [alice, bob],
      profiles = [empty_profile ''alice'', empty_profile ''bob''],
      posts = [1 \<mapsto> hello_post],
      likes = [],
      sessions = [1 \<mapsto> ''bob'']\<rparr>"

definition liked_state :: "nat state" where
  "liked_state =
     feed_state\<lparr>likes := [bob_like], posts := [1 \<mapsto> hello_post\<lparr>no_of_likes := 1\<rparr>]\<rparr>"

text \<open>A ledger that has drifted: two Like rows of bob for the post, between them one of alice.\<close>

definition alice_like :: likepost where
  "alice_like = \<lparr>like_post_id = ''1'', like_username = ''alice''\<rparr>"

definition drifted_state :: "nat state" where
  "drifted_state =
     feed_state\<lparr>likes := [bob_like, alice_like, bob_like],
                posts := [1 \<mapsto> hello_post\<lparr>no_of_likes := 3\<rparr>]\<rparr>"

definition like_request :: "nat \<Rightarrow> string \<Rightarrow> request" where
  "like_request c pid =
     \<lparr>client = c, req_method = ''GET'', GET = [''post_id'' \<mapsto> pid], POST = Map.empty,
      FILES = Map.empty\<rparr>"

definition get_request :: "nat \<Rightarrow> request" where
  "get_request c =
     \<lparr>client = c, req_method = ''GET'', GET = Map.empty, POST = Map.empty, FILES = Map.empty\<rparr>"

definition signup_request :: "nat \<Rightarrow> string \<Rightarrow> string \<Rightarrow> string \<Rightarrow> string \<Rightarrow> request" where
  "signup_request c n e pw pw2 =
     \<lparr>client = c, req_method = ''POST'', GET = Map.empty,
      POST = [''username'' \<mapsto> n, ''email'' \<mapsto> e, ''password'' \<mapsto> pw, ''password2'' \<mapsto> pw2],
      FILES = Map.empty\<rparr>"

definition upload_request :: "nat \<Rightarrow> string \<Rightarrow> string \<Rightarrow> request" where
  "upload_request c f cap =
     \<lparr>client = c, req_method = ''POST'', GET = Map.empty, POST = [''caption'' \<mapsto> cap],
      FILES = [''image_upload'' \<mapsto> f]\<rparr>"

definition no_form :: ProfileForm where
  "no_form req inst = None"

definition accept_form :: ProfileForm where
  "accept_form req inst = Some (FILES req ''profileimg'', ''about me'', ''somewhere'')"

definition settings_request :: "nat \<Rightarrow> request" where
  "settings_request c =
     \<lparr>client = c, req_method = ''POST'', GET = Map.empty,
      POST = [''bio'' \<mapsto> ''about me'', ''location'' \<mapsto> ''somewhere''], FILES = Map.empty\<rparr>"

text \<open>From the empty store: alice signs up and uploads, bob signs up and likes the post.\<close>

definition example_trace :: "(nat call \<times> request) list" where
  "example_trace =
     [(Signup, signup_request 1 ''alice'' ''alice@example.org'' ''a-secret'' ''a-secret''),
      (Upload 1, upload_request 1 ''hello.png'' ''hello''),
      (Signup, signup_request 2 ''bob'' ''bob@example.org'' ''b-secret'' ''b-secret''),
      (LikePost, like_request 2 ''1'')]"

text \<open>Then bob asks again, writing the key of the post as 01.\<close>

definition second_spelling_trace :: "(nat call \<times> request) list" where
  "second_spelling_trace = example_trace @ [(LikePost, like_request 2 ''01'')]"

section \<open>Facts about the queries\<close>

lemma first_pos_None_iff: "first_pos P xs = None \<longleftrightarrow> filter P xs = []"
  by (induction xs) auto

lemma first_pos_SomeD:
  "first_pos P xs = Some i \<Longrightarrow> i < length xs \<and> P (xs ! i) \<and> (\<forall>j<i. \<not> P (xs ! j))"
proof (induction xs arbitrary: i)
  case Nil
  then show ?case by simp
next
  case (Cons x xs)
  show ?case
  proof (cases "P x")
    case True
    with Cons.prems show ?thesis by simp
  next
    case False
    with Cons.prems obtain k where k: "first_pos P xs = Some k" "i = Suc k"
      by auto
    from Cons.IH [OF k(1)] False k(2) show ?thesis
      by (auto simp: nth_Cons split: nat.splits)
  qed
qed

lemma delete_at_take_drop: "delete_at i xs = take i xs @ drop (Suc i) xs"
  by (induction i xs rule: delete_at.induct) auto


lemma filter_delete_at_hit:
  "i < length xs \<Longrightarrow> Q (xs ! i) \<Longrightarrow> Suc (length (filter Q (delete_at i xs))) = length (filter Q xs)"
  by (induction i xs rule: delete_at.induct) auto

lemma filter_delete_at_miss:
  "i < length xs \<Longrightarrow> \<not> Q (xs ! i) \<Longrightarrow> filter Q (delete_at i xs) = filter Q xs"
  by (induction i xs rule: delete_at.induct) auto

lemma set_delete_at: "set (delete_at i xs) \<subseteq> set xs"
  by (induction i xs rule: delete_at.induct) auto



lemmas example_defs =
  feed_state_def liked_state_def drifted_state_def like_request_def get_request_def
  hello_post_def bob_like_def alice_like_def request_user_def
  integer_keys_def decimal_def digit_def

section \<open>Properties of the like toggle\<close>





text \<open>
  C10. When the ledger has drifted and the pair \<open>(u, p)\<close> has more than one Like row, one
  like request deletes the first matching row only: the table loses the row at the
  first matching position, the pair keeps one row fewer (so at least one), and the
  counter of \<open>p\<close> goes down by exactly 1.
\<close>

theorem unlike_removes_first_only:
  assumes auth: "request_user st req = Some u"
      and param: "GET req ''post_id'' = Some pid"
      and key: "to_key fw pid = Some k"
      and found: "posts st k = Some p"
      and dup: "1 < likes_of_pair st pid u"
      and run: "like_post fw req st = (out, st')"
  shows "\<exists>i. i < length (likes st) \<and> like_matches pid u (likes st ! i) \<and>
             (\<forall>j<i. \<not> like_matches pid u (likes st ! j)) \<and>
             likes st' = take i (likes st) @ drop (Suc i) (likes st) \<and>
             Suc (likes_of_pair st' pid u) = likes_of_pair st pid u \<and>
             0 < likes_of_pair st' pid u \<and>
             posts st' = (posts st)(k \<mapsto> p\<lparr>no_of_likes := no_of_likes p - 1\<rparr>)"
proof -
  from dup have "filter (like_matches pid u) (likes st) \<noteq> []"
    by (auto simp: likes_of_pair_def)
  then obtain i where fp: "first_pos (like_matches pid u) (likes st) = Some i"
    by (auto simp: first_pos_None_iff [symmetric])
  note D = first_pos_SomeD [OF fp]
  from fp auth param key found run
  have st': "st' = st\<lparr>likes := delete_at i (likes st),
                     posts := (posts st)(k \<mapsto> p\<lparr>no_of_likes := no_of_likes p - 1\<rparr>)\<rparr>"
    by (auto simp: like_post_def login_required_def like_post_view_def)
  have cnt: "Suc (likes_of_pair st' pid u) = likes_of_pair st pid u"
    using D by (simp add: st' likes_of_pair_def filter_delete_at_hit)
  with dup have left: "0 < likes_of_pair st' pid u"
    by simp
  have shape: "likes st' = take i (likes st) @ drop (Suc i) (likes st)"
    by (simp add: st' delete_at_take_drop)
  have "posts st' = (posts st)(k \<mapsto> p\<lparr>no_of_likes := no_of_likes p - 1\<rparr>)"
    by (simp add: st')
  with D cnt left shape show ?thesis
    by blast
qed

theorem unlike_removes_first_only_witness:
  "likes_of_pair drifted_state ''1'' ''bob'' = 2 \<and>
   likes (snd (like_post integer_keys (like_request 1 ''1'') drifted_state)) = [alice_like, bob_like] \<and>
   likes_of_pair (snd (like_post integer_keys (like_request 1 ''1'') drifted_state)) ''1'' ''bob'' = 1 \<and>
   posts (snd (like_post integer_keys (like_request 1 ''1'') drifted_state)) 1 =
     Some (hello_post\<lparr>no_of_likes := 2\<rparr>)"
proof -
  let ?r = "like_request 1 ''1''"
  let ?s = "snd (like_post integer_keys ?r drifted_state)"
  have a: "request_user drifted_state ?r = Some ''bob''"
    and g: "GET ?r ''post_id'' = Some ''1''"
    and k: "to_key integer_keys ''1'' = Some 1"
    and f: "posts drifted_state 1 = Some (hello_post\<lparr>no_of_likes := 3\<rparr>)"
    by (simp_all add: example_defs)
  have two: "likes_of_pair drifted_state ''1'' ''bob'' = 2"
    by (simp add: example_defs likes_of_pair_def like_matches_def)
  then have d: "1 < likes_of_pair drifted_state ''1'' ''bob''"
    by simp
  have m0: "like_matches ''1'' ''bob'' (likes drifted_state ! 0)"
    by (simp add: example_defs like_matches_def)
  have r: "like_post integer_keys ?r drifted_state = (fst (like_post integer_keys ?r drifted_state), ?s)"
    by simp
  from unlike_removes_first_only [OF a g k f d r]
  obtain i where i: "\<forall>j<i. \<not> like_matches ''1'' ''bob'' (likes drifted_state ! j)"
      "likes ?s = take i (likes drifted_state) @ drop (Suc i) (likes drifted_state)"
      "Suc (likes_of_pair ?s ''1'' ''bob'') = likes_of_pair drifted_state ''1'' ''bob''"
      "posts ?s = (posts drifted_state)(1 \<mapsto>
         hello_post\<lparr>no_of_likes := 3\<rparr>\<lparr>no_of_likes := no_of_likes (hello_post\<lparr>no_of_likes := 3\<rparr>) - 1\<rparr>)"
    by blast
  from i(1) m0 have "i = 0"
    by (cases i) auto
  with i(2,3,4) two show ?thesis
    by (simp add: example_defs)
qed

text \<open>
  C6. A signed-in request to like a post whose identifier names no Post (or that carries
  no identifier) ends in the lookup's DoesNotExist, which no handler catches; when the
  text is not even a key, in the error of reading it. There is no response, and the
  state is the one before, so no Like row is created or deleted and no Post is modified.
\<close>

theorem like_post_missing_post:
  assumes auth: "request_user st req = Some u"
      and missing: "\<forall>pid k. GET req ''post_id'' = Some pid \<longrightarrow> to_key fw pid = Some k \<longrightarrow>
                     posts st k = None"
  shows "like_post fw req st =
           (Raised (if \<exists>pid. GET req ''post_id'' = Some pid \<and> to_key fw pid = None
                    then ValueError else DoesNotExist), st)"
  using assms
  by (auto simp: like_post_def login_required_def like_post_view_def split: option.splits)

theorem like_post_missing_post_witness:
  "request_user feed_state (like_request 1 ''9'') = Some ''bob'' \<and>
   to_key integer_keys ''9'' = Some 9 \<and> posts feed_state 9 = None \<and>
   like_post integer_keys (like_request 1 ''9'') feed_state = (Raised DoesNotExist, feed_state) \<and>
   like_post integer_keys (get_request 1) feed_state = (Raised DoesNotExist, feed_state) \<and>
   to_key integer_keys ''x'' = None \<and>
   like_post integer_keys (like_request 1 ''x'') feed_state = (Raised ValueError, feed_state)"
proof -
  have a: "request_user feed_state (like_request 1 ''9'') = Some ''bob''"
    and a': "request_user feed_state (get_request 1) = Some ''bob''"
    and a'': "request_user feed_state (like_request 1 ''x'') = Some ''bob''"
    and n: "posts feed_state 9 = None"
    and k: "to_key integer_keys ''9'' = Some 9"
    and k'': "to_key integer_keys ''x'' = None"
    by (simp_all add: example_defs)
  have m: "\<forall>pid k. GET (like_request 1 ''9'') ''post_id'' = Some pid \<longrightarrow>
             to_key integer_keys pid = Some k \<longrightarrow> posts feed_state k = None"
    and m': "\<forall>pid k. GET (get_request 1) ''post_id'' = Some pid \<longrightarrow>
             to_key integer_keys pid = Some k \<longrightarrow> posts feed_state k = None"
    and m'': "\<forall>pid k. GET (like_request 1 ''x'') ''post_id'' = Some pid \<longrightarrow>
             to_key integer_keys pid = Some k \<longrightarrow> posts feed_state k = None"
    by (simp_all add: example_defs)
  have g: "GET (like_request 1 ''9'') ''post_id'' = Some ''9''"
    and g': "GET (get_request 1) ''post_id'' = None"
    and g'': "GET (like_request 1 ''x'') ''post_id'' = Some ''x''"
    by (simp_all add: example_defs)
  from like_post_missing_post [OF a m] like_post_missing_post [OF a' m']
    like_post_missing_post [OF a'' m''] a n k k'' g g' g''
  show ?thesis by simp
qed

section \<open>Properties of the login gate\<close>

text \<open>
  C8. A request without a session to home, like, settings or upload is answered by a
  redirect to the sign-in entry point, and the state is the one before.
\<close>

theorem anonymous_redirected:
  assumes anon: "request_user st req = None"
  shows "index req st = (Responded [] (Redirect ''signin''), st) \<and>
         like_post fw req st = (Responded [] (Redirect ''signin''), st) \<and>
         settings form req st = (Responded [] (Redirect ''signin''), st) \<and>
         upload new_id req st = (Responded [] (Redirect ''signin''), st)"
  using anon
  by (simp add: index_def like_post_def settings_def upload_def login_required_def)

theorem anonymous_redirected_witness:
  "request_user feed_state (like_request 2 ''1'') = None \<and>
   like_post integer_keys (like_request 2 ''1'') feed_state = (Responded [] (Redirect ''signin''), feed_state) \<and>
   index (like_request 2 ''1'') feed_state = (Responded [] (Redirect ''signin''), feed_state) \<and>
   settings no_form (like_request 2 ''1'') feed_state =
     (Responded [] (Redirect ''signin''), feed_state) \<and>
   upload 2 (like_request 2 ''1'') feed_state =
     (Responded [] (Redirect ''signin''), feed_state)"
proof -
  have a: "request_user feed_state (like_request 2 ''1'') = None"
    by (simp add: example_defs)
  from anonymous_redirected [OF a, of integer_keys no_form 2] a show ?thesis
    by simp
qed

section \<open>Signup\<close>

lemma first_pos_hd_filter: "first_pos P xs = Some i \<Longrightarrow> hd (filter P xs) = xs ! i"
proof (induction xs arbitrary: i)
  case Nil
  then show ?case by simp
next
  case (Cons x xs)
  then show ?case by (cases "P x") auto
qed

lemma objects_get_none: "filter P xs = [] \<Longrightarrow> objects_get P xs = Inl DoesNotExist"
  by (simp add: objects_get_def)

lemma objects_get_one:
  assumes "filter P xs = [x]"
  shows "\<exists>i. objects_get P xs = Inr (i, x) \<and> i < length xs \<and> xs ! i = x \<and> P x"
proof -
  from assms have "first_pos P xs \<noteq> None"
    by (simp add: first_pos_None_iff)
  then obtain i where i: "first_pos P xs = Some i"
    by auto
  from first_pos_hd_filter [OF i] assms have "xs ! i = x"
    by simp
  with i first_pos_SomeD [OF i] assms show ?thesis
    by (auto simp: objects_get_def)
qed

lemma objects_get_many:
  "1 < length (filter P xs) \<Longrightarrow> objects_get P xs = Inl MultipleObjectsReturned"
  by (cases "filter P xs" rule: list.exhaust; cases "tl (filter P xs)")
     (auto simp: objects_get_def split: list.splits)

lemma length_one_conv: "length ys = 1 \<Longrightarrow> \<exists>y. ys = [y]"
  by (cases ys) auto

lemma authenticate_new_user:
  assumes "\<forall>x \<in> set (users st). username x \<noteq> n"
  shows "authenticate n pw
           (st\<lparr>users := users st @ [\<lparr>username = n, email = e, password = Hashed pw\<rparr>]\<rparr>) =
         Inr (Some \<lparr>username = n, email = e, password = Hashed pw\<rparr>)"
proof -
  let ?u = "\<lparr>username = n, email = e, password = Hashed pw\<rparr>"
  from assms have "filter (\<lambda>u. username u = n) (users st @ [?u]) = [?u]"
    by (simp add: filter_empty_conv)
  from objects_get_one [OF this] show ?thesis
    by (auto simp: authenticate_def check_password_def)
qed

lemma authenticate_other_name:
  assumes "\<forall>x \<in> set (users st). username x \<noteq> n" and "m \<noteq> n"
  shows "authenticate n pw
           (st\<lparr>users := users st @ [\<lparr>username = m, email = e, password = Hashed pw\<rparr>]\<rparr>) =
         Inr None"
proof -
  from assms
  have "filter (\<lambda>u. username u = n)
          (users st @ [\<lparr>username = m, email = e, password = Hashed pw\<rparr>]) = []"
    by (simp add: filter_empty_conv)
  from objects_get_none [OF this] show ?thesis
    by (simp add: authenticate_def)
qed

lemma create_user_inserts:
  assumes "n \<noteq> []" and "\<forall>x \<in> set (users st). username x \<noteq> normalize_username fw n"
  shows "create_user fw n e pw st =
           Inr (\<lparr>username = normalize_username fw n, email = normalize_email fw e,
                  password = Hashed pw\<rparr>,
                st\<lparr>users := users st @
                  [\<lparr>username = normalize_username fw n, email = normalize_email fw e,
                    password = Hashed pw\<rparr>]\<rparr>)"
  using assms by (simp add: create_user_def Let_def exists_row_def filter_empty_conv)

lemmas request_defs =
  signup_request_def upload_request_def settings_request_def alice_def bob_def

text \<open>
  C4, as amended. A signup submission whose password and confirmation agree, with an
  email and a username that no account has, the username not empty and in the account
  service's normal form, creates exactly one User row (that username, the email in
  normal form, the credential hashed) and exactly one Profile row, owned by that user;
  it binds the client's session to the new user and redirects to settings. Posts, likes
  and the sessions of other clients stay.
\<close>

theorem signup_creates_account:
  assumes post: "req_method req = ''POST''"
      and name: "POST req ''username'' = Some n"
      and mail: "POST req ''email'' = Some e"
      and pw1: "POST req ''password'' = Some pw"
      and pw2: "POST req ''password2'' = Some pw"
      and mail_free: "\<forall>x \<in> set (users st). email x \<noteq> e"
      and name_free: "\<forall>x \<in> set (users st). username x \<noteq> n"
      and named: "n \<noteq> []"
      and normal: "normalize_username fw n = n"
      and run: "signup fw req st = (out, st')"
  shows "out = Responded [] (Redirect ''settings'') \<and>
         users st' = users st @
           [\<lparr>username = n, email = normalize_email fw e, password = Hashed pw\<rparr>] \<and>
         profiles st' = profiles st @ [empty_profile n] \<and>
         profile_user (empty_profile n) = n \<and>
         request_user st' req = Some n \<and>
         (\<forall>c. c \<noteq> client req \<longrightarrow> sessions st' c = sessions st c) \<and>
         posts st' = posts st \<and> likes st' = likes st"
proof -
  let ?u = "\<lparr>username = n, email = normalize_email fw e, password = Hashed pw\<rparr>"
  have no_mail: "\<not> exists_row (\<lambda>u. email u = e) (users st)"
    using mail_free by (simp add: exists_row_def filter_empty_conv)
  have no_name: "\<not> exists_row (\<lambda>u. username u = n) (users st)"
    using name_free by (simp add: exists_row_def filter_empty_conv)
  have created: "create_user fw n e pw st = Inr (?u, st\<lparr>users := users st @ [?u]\<rparr>)"
    using create_user_inserts [of n st fw e pw] named name_free by (simp add: normal)
  have auth: "authenticate n pw (st\<lparr>users := users st @ [?u]\<rparr>) = Inr (Some ?u)"
    using name_free by (rule authenticate_new_user)
  have "signup fw req st =
          (Responded [] (Redirect ''settings''),
           Profile_objects_create n
             (st\<lparr>users := users st @ [?u], sessions := (sessions st)(client req \<mapsto> n)\<rparr>))"
    by (simp add: signup_def post name mail pw1 pw2 no_mail no_name created auth login_def)
  with run show ?thesis
    by (auto simp: Profile_objects_create_def request_user_def empty_profile_def)
qed

theorem signup_creates_account_witness:
  "''carol@example.org'' \<notin> set (map email (users feed_state)) \<and>
   ''carol'' \<notin> set (map username (users feed_state)) \<and>
   normalize_username integer_keys ''carol'' = ''carol'' \<and>
   fst (signup integer_keys
          (signup_request 2 ''carol'' ''carol@example.org'' ''c-secret'' ''c-secret'')
          feed_state) = Responded [] (Redirect ''settings'') \<and>
   users (snd (signup integer_keys
          (signup_request 2 ''carol'' ''carol@example.org'' ''c-secret'' ''c-secret'')
          feed_state)) =
     [alice, bob,
      \<lparr>username = ''carol'', email = ''carol@example.org'', password = Hashed ''c-secret''\<rparr>] \<and>
   profiles (snd (signup integer_keys
          (signup_request 2 ''carol'' ''carol@example.org'' ''c-secret'' ''c-secret'')
          feed_state)) =
     [empty_profile ''alice'', empty_profile ''bob'', empty_profile ''carol''] \<and>
   sessions (snd (signup integer_keys
          (signup_request 2 ''carol'' ''carol@example.org'' ''c-secret'' ''c-secret'')
          feed_state)) 2 = Some ''carol''"
proof -
  let ?r = "signup_request 2 ''carol'' ''carol@example.org'' ''c-secret'' ''c-secret''"
  have m: "req_method ?r = ''POST''"
    and f1: "POST ?r ''username'' = Some ''carol''"
    and f2: "POST ?r ''email'' = Some ''carol@example.org''"
    and f3: "POST ?r ''password'' = Some ''c-secret''"
    and f4: "POST ?r ''password2'' = Some ''c-secret''"
    and c: "client ?r = 2"
    by (simp_all add: request_defs)
  have e: "\<forall>x \<in> set (users feed_state). email x \<noteq> ''carol@example.org''"
    and n: "\<forall>x \<in> set (users feed_state). username x \<noteq> ''carol''"
    by (simp_all add: example_defs request_defs)
  have ne: "''carol'' \<noteq> []"
    and nf: "normalize_username integer_keys ''carol'' = ''carol''"
    and ef: "normalize_email integer_keys ''carol@example.org'' = ''carol@example.org''"
    by (simp_all add: integer_keys_def)
  have r: "signup integer_keys ?r feed_state =
             (fst (signup integer_keys ?r feed_state), snd (signup integer_keys ?r feed_state))"
    by simp
  have free: "''carol@example.org'' \<notin> set (map email (users feed_state))"
      "''carol'' \<notin> set (map username (users feed_state))"
    by (simp_all add: example_defs request_defs)
  from signup_creates_account [OF m f1 f2 f3 f4 e n ne nf r] free c nf ef show ?thesis
    by (simp add: feed_state_def request_defs request_user_def)
qed

text \<open>
  C4 as first stated fails on an empty username: the passwords agree, no account
  has the email or the empty name, and the account service refuses the name, so that
  the request ends in ValueError with nothing written.
\<close>

theorem signup_empty_username_counterexample:
  "''carol@example.org'' \<notin> set (map email (users feed_state)) \<and>
   [] \<notin> set (map username (users feed_state)) \<and>
   signup integer_keys (signup_request 2 [] ''carol@example.org'' ''c-secret'' ''c-secret'')
     feed_state = (Raised ValueError, feed_state)"
  by (simp add: signup_def create_user_def exists_row_def feed_state_def request_defs)

text \<open>
  A username that the account service stores in another form is looked up as submitted
  right after, is not found, and the login raises: the User row stays, without Profile
  and without session.
\<close>

lemma signup_name_not_in_normal_form:
  assumes post: "req_method req = ''POST''"
      and name: "POST req ''username'' = Some n"
      and mail: "POST req ''email'' = Some e"
      and pw1: "POST req ''password'' = Some pw"
      and pw2: "POST req ''password2'' = Some pw"
      and mail_free: "\<forall>x \<in> set (users st). email x \<noteq> e"
      and name_free: "\<forall>x \<in> set (users st). username x \<noteq> n"
      and stored_free: "\<forall>x \<in> set (users st). username x \<noteq> normalize_username fw n"
      and named: "n \<noteq> []"
      and changed: "normalize_username fw n \<noteq> n"
  shows "signup fw req st =
           (Raised AttributeError,
            st\<lparr>users := users st @
              [\<lparr>username = normalize_username fw n, email = normalize_email fw e,
                password = Hashed pw\<rparr>]\<rparr>)"
proof -
  have no_mail: "\<not> exists_row (\<lambda>u. email u = e) (users st)"
    using mail_free by (simp add: exists_row_def filter_empty_conv)
  have no_name: "\<not> exists_row (\<lambda>u. username u = n) (users st)"
    using name_free by (simp add: exists_row_def filter_empty_conv)
  note created = create_user_inserts [OF named stored_free, of e pw]
  note auth = authenticate_other_name [OF name_free changed, of pw "normalize_email fw e"]
  show ?thesis
    by (simp add: signup_def post name mail pw1 pw2 no_mail no_name created auth login_def)
qed

text \<open>
  C5. The failure checks of a signup submission come in this order: a password that
  differs from its confirmation is reported (Password Not Matching) whatever the email
  and the username are; then an email that an account has (This email already exists)
  whatever the username is; then a username that an account has (Username is taken).
  Each failure redirects to signup and returns the state as it was: no User row is
  created and every account is unchanged.
\<close>

theorem signup_failures_in_order:
  assumes post: "req_method req = ''POST''"
      and name: "POST req ''username'' = Some n"
      and mail: "POST req ''email'' = Some e"
      and pw1: "POST req ''password'' = Some pw"
      and pw2: "POST req ''password2'' = Some pw'"
  shows "(pw \<noteq> pw' \<longrightarrow>
            signup fw req st = (Responded [''Password Not Matching''] (Redirect ''signup''), st)) \<and>
         (pw = pw' \<and> (\<exists>x \<in> set (users st). email x = e) \<longrightarrow>
            signup fw req st = (Responded [''This email already exists''] (Redirect ''signup''), st)) \<and>
         (pw = pw' \<and> (\<forall>x \<in> set (users st). email x \<noteq> e) \<and>
          (\<exists>x \<in> set (users st). username x = n) \<longrightarrow>
            signup fw req st = (Responded [''Username is taken''] (Redirect ''signup''), st))"
proof (intro conjI impI)
  assume "pw \<noteq> pw'"
  then show "signup fw req st =
               (Responded [''Password Not Matching''] (Redirect ''signup''), st)"
    by (simp add: signup_def post name mail pw1 pw2)
next
  assume a: "pw = pw' \<and> (\<exists>x \<in> set (users st). email x = e)"
  then have "exists_row (\<lambda>u. email u = e) (users st)"
    by (auto simp: exists_row_def filter_empty_conv)
  with a show "signup fw req st =
               (Responded [''This email already exists''] (Redirect ''signup''), st)"
    by (simp add: signup_def post name mail pw1 pw2)
next
  assume a: "pw = pw' \<and> (\<forall>x \<in> set (users st). email x \<noteq> e) \<and>
             (\<exists>x \<in> set (users st). username x = n)"
  then have "\<not> exists_row (\<lambda>u. email u = e) (users st)"
    and "exists_row (\<lambda>u. username u = n) (users st)"
    by (auto simp: exists_row_def filter_empty_conv)
  with a show "signup fw req st =
               (Responded [''Username is taken''] (Redirect ''signup''), st)"
    by (simp add: signup_def post name mail pw1 pw2)
qed

theorem signup_failures_in_order_witness:
  "signup integer_keys (signup_request 2 ''bob'' ''alice@example.org'' ''pw'' ''other'') feed_state =
     (Responded [''Password Not Matching''] (Redirect ''signup''), feed_state) \<and>
   signup integer_keys (signup_request 2 ''bob'' ''alice@example.org'' ''pw'' ''pw'') feed_state =
     (Responded [''This email already exists''] (Redirect ''signup''), feed_state) \<and>
   signup integer_keys (signup_request 2 ''bob'' ''carol@example.org'' ''pw'' ''pw'') feed_state =
     (Responded [''Username is taken''] (Redirect ''signup''), feed_state)"
proof -
  let ?r1 = "signup_request 2 ''bob'' ''alice@example.org'' ''pw'' ''other''"
  let ?r2 = "signup_request 2 ''bob'' ''alice@example.org'' ''pw'' ''pw''"
  let ?r3 = "signup_request 2 ''bob'' ''carol@example.org'' ''pw'' ''pw''"
  have u: "users feed_state = [alice, bob]"
    by (simp add: example_defs)
  have a: "signup integer_keys ?r1 feed_state =
             (Responded [''Password Not Matching''] (Redirect ''signup''), feed_state)"
    using signup_failures_in_order [of ?r1 "''bob''" "''alice@example.org''" "''pw''" "''other''"
            integer_keys feed_state]
    by (simp add: request_defs)
  have b: "signup integer_keys ?r2 feed_state =
             (Responded [''This email already exists''] (Redirect ''signup''), feed_state)"
    using signup_failures_in_order [of ?r2 "''bob''" "''alice@example.org''" "''pw''" "''pw''"
            integer_keys feed_state]
    by (simp add: request_defs u)
  have c: "signup integer_keys ?r3 feed_state =
             (Responded [''Username is taken''] (Redirect ''signup''), feed_state)"
    using signup_failures_in_order [of ?r3 "''bob''" "''carol@example.org''" "''pw''" "''pw''"
            integer_keys feed_state]
    by (simp add: request_defs u)
  from a b c show ?thesis
    by simp
qed

section \<open>Settings\<close>

lemma filter_update_hit:
  "i < length xs \<Longrightarrow> Q (xs ! i) \<Longrightarrow> Q y \<Longrightarrow>
     length (filter Q (xs[i := y])) = length (filter Q xs)"
proof (induction xs arbitrary: i)
  case Nil
  then show ?case by simp
next
  case (Cons x xs)
  then show ?case by (cases i) auto
qed

lemma filter_update_miss:
  "i < length xs \<Longrightarrow> \<not> Q (xs ! i) \<Longrightarrow> \<not> Q y \<Longrightarrow> filter Q (xs[i := y]) = filter Q xs"
proof (induction xs arbitrary: i)
  case Nil
  then show ?case by simp
next
  case (Cons x xs)
  then show ?case by (cases i) auto
qed

lemma profiles_of_owners:
  "profiles_of st v = length (filter (\<lambda>n. n = v) (map profile_user (profiles st)))"
  by (simp add: profiles_of_def filter_map comp_def)

lemma settings_page_owners:
  assumes "i < length (profiles st)"
      and "profile_user inst = profile_user (profiles st ! i)"
      and "settings_page form i inst req st = (out, st')"
  shows "(\<exists>msgs r. out = Responded msgs r) \<and>
         map profile_user (profiles st') = map profile_user (profiles st)"
  using assms
  by (auto simp: settings_page_def form_save_def map_update list_update_same_conv
           split: if_splits option.splits)

text \<open>
  C7. For a signed-in user with at most one Profile (the data model's 1:1 ownership,
  which \<open>one_profile_per_user_kept\<close> below shows of every state the views reach from the
  empty store), a settings request, GET or POST, does not raise: with no Profile at the
  start one row is created on the fly, with one the table keeps its length; afterwards
  the user has exactly one Profile, and the profile counts of other users are as before.
\<close>

theorem settings_provides_profile:
  assumes auth: "request_user st req = Some u"
      and one: "profiles_of st u \<le> 1"
      and run: "settings form req st = (out, st')"
  shows "(\<exists>msgs r. out = Responded msgs r) \<and>
         profiles_of st' u = 1 \<and>
         (profiles_of st u = 0 \<longrightarrow> length (profiles st') = Suc (length (profiles st))) \<and>
         (profiles_of st u = 1 \<longrightarrow> length (profiles st') = length (profiles st)) \<and>
         (\<forall>v. v \<noteq> u \<longrightarrow> profiles_of st' v = profiles_of st v)"
proof -
  let ?P = "\<lambda>p. profile_user p = u"
  from auth run have view: "settings_view form u req st = (out, st')"
    by (simp add: settings_def login_required_def)
  show ?thesis
  proof (cases "profiles_of st u = 0")
    case True
    then have none: "filter ?P (profiles st) = []"
      by (simp add: profiles_of_def)
    let ?st1 = "Profile_objects_create u st"
    from view objects_get_none [OF none]
    have page: "settings_page form (length (profiles st)) (empty_profile u) req ?st1 = (out, st')"
      by (simp add: settings_view_def)
    have pre: "length (profiles st) < length (profiles ?st1)"
      "profile_user (empty_profile u) = profile_user (profiles ?st1 ! length (profiles st))"
      by (simp_all add: Profile_objects_create_def)
    from settings_page_owners [OF pre page]
    have out: "\<exists>msgs r. out = Responded msgs r"
      and owners: "map profile_user (profiles st') = map profile_user (profiles st) @ [u]"
      by (simp_all add: Profile_objects_create_def empty_profile_def)
    from owners have len: "length (profiles st') = Suc (length (profiles st))"
      by (metis length_append_singleton length_map)
    from owners have count: "\<And>v. profiles_of st' v = profiles_of st v + (if v = u then 1 else 0)"
      by (simp add: profiles_of_owners)
    from out len count True show ?thesis
      by simp
  next
    case False
    with one have "length (filter ?P (profiles st)) = 1"
      unfolding profiles_of_def by linarith
    from length_one_conv [OF this] obtain x where x: "filter ?P (profiles st) = [x]"
      by blast
    from objects_get_one [OF x] obtain i
      where i: "objects_get ?P (profiles st) = Inr (i, x)" "i < length (profiles st)"
        "profiles st ! i = x"
      by blast
    from view i(1) have page: "settings_page form i x req st = (out, st')"
      by (simp add: settings_view_def)
    from i(3) have same: "profile_user x = profile_user (profiles st ! i)"
      by simp
    from settings_page_owners [OF i(2) same page]
    have out: "\<exists>msgs r. out = Responded msgs r"
      and owners: "map profile_user (profiles st') = map profile_user (profiles st)"
      by simp_all
    from owners have len: "length (profiles st') = length (profiles st)"
      by (metis length_map)
    from owners have count: "\<And>v. profiles_of st' v = profiles_of st v"
      by (simp add: profiles_of_owners)
    from out len count one False show ?thesis
      by simp
  qed
qed

theorem settings_provides_profile_witness:
  "profiles_of (feed_state\<lparr>profiles := [empty_profile ''alice'']\<rparr>) ''bob'' = 0 \<and>
   profiles_of (snd (settings accept_form (settings_request 1)
      (feed_state\<lparr>profiles := [empty_profile ''alice'']\<rparr>))) ''bob'' = 1 \<and>
   length (profiles (snd (settings accept_form (settings_request 1)
      (feed_state\<lparr>profiles := [empty_profile ''alice'']\<rparr>)))) = 2 \<and>
   profiles_of feed_state ''bob'' = 1 \<and>
   profiles_of (snd (settings no_form (get_request 1) feed_state)) ''bob'' = 1 \<and>
   length (profiles (snd (settings no_form (get_request 1) feed_state))) = 2"
proof -
  let ?s = "feed_state\<lparr>profiles := [empty_profile ''alice'']\<rparr>"
  let ?r = "settings_request 1"
  let ?g = "get_request 1"
  have a: "request_user ?s ?r = Some ''bob''" and a': "request_user feed_state ?g = Some ''bob''"
    by (simp_all add: example_defs request_defs)
  have z: "profiles_of ?s ''bob'' = 0" and z': "profiles_of feed_state ''bob'' = 1"
    by (simp_all add: profiles_of_def example_defs empty_profile_def)
  have le: "profiles_of ?s ''bob'' \<le> 1" and le': "profiles_of feed_state ''bob'' \<le> 1"
    using z z' by simp_all
  have r: "settings accept_form ?r ?s =
             (fst (settings accept_form ?r ?s), snd (settings accept_form ?r ?s))"
    and r': "settings no_form ?g feed_state =
             (fst (settings no_form ?g feed_state), snd (settings no_form ?g feed_state))"
    by simp_all
  have l: "length (profiles ?s) = 1" and l': "length (profiles feed_state) = 2"
    by (simp_all add: example_defs)
  from settings_provides_profile [OF a le r] settings_provides_profile [OF a' le' r'] z z' l l'
  show ?thesis
    by simp
qed

section \<open>Upload\<close>

text \<open>
  C9. A Post row that an upload request has created (present afterwards under an
  identifier that had no row before) has an image reference, the uploaded file; its
  owner is the session's username, its caption the submitted one, its like counter 0;
  the request was answered by a redirect to home.
\<close>

theorem upload_creates_post:
  assumes run: "upload new_id req st = (out, st')"
      and absent: "posts st pid = None"
      and created: "posts st' pid = Some p"
  shows "image p \<noteq> None \<and> image p = FILES req ''image_upload'' \<and>
         request_user st req = Some (post_user p) \<and> no_of_likes p = 0 \<and>
         POST req ''caption'' = Some (caption p) \<and> pid = new_id \<and>
         out = Responded [] (Redirect ''/'')"
  using assms
  by (auto simp: upload_def login_required_def upload_view_def Post_objects_create_def
           split: option.splits if_splits)

theorem upload_creates_post_witness:
  "posts feed_state 2 = None \<and>
   posts (snd (upload 2 (upload_request 1 ''cat.png'' ''cat'') feed_state)) 2 =
     Some \<lparr>post_user = ''bob'', image = Some ''cat.png'', caption = ''cat'', no_of_likes = 0\<rparr> \<and>
   fst (upload 2 (upload_request 1 ''cat.png'' ''cat'') feed_state) =
     Responded [] (Redirect ''/'')"
proof -
  let ?r = "upload_request 1 ''cat.png'' ''cat''"
  let ?p = "\<lparr>post_user = ''bob'', image = Some ''cat.png'', caption = ''cat'', no_of_likes = 0\<rparr>"
  have r: "upload 2 ?r feed_state =
             (fst (upload 2 ?r feed_state), snd (upload 2 ?r feed_state))"
    by simp
  have a: "posts feed_state 2 = None"
    by (simp add: example_defs)
  have c: "posts (snd (upload 2 ?r feed_state)) 2 = Some ?p"
    by (simp add: upload_def login_required_def upload_view_def Post_objects_create_def
          example_defs request_defs)
  from upload_creates_post [OF r a c] a c show ?thesis
    by simp
qed

lemma upload_without_image:
  assumes "request_user st req = Some u" and "req_method req = ''POST''"
      and "POST req ''caption'' = Some c" and "FILES req ''image_upload'' = None"
  shows "upload new_id req st = (Raised IntegrityError, st)"
  using assms
  by (simp add: upload_def login_required_def upload_view_def Post_objects_create_def)

section \<open>The like ledger\<close>

lemma length_filter_delete_at_le:
  "i < length xs \<Longrightarrow> length (filter Q (delete_at i xs)) \<le> length (filter Q xs)"
  using filter_delete_at_hit [of i xs Q] filter_delete_at_miss [of i xs Q]
  by (cases "Q (xs ! i)") auto

lemma length_filter_mono:
  "(\<And>x. x \<in> set xs \<Longrightarrow> P x \<Longrightarrow> Q x) \<Longrightarrow> length (filter P xs) \<le> length (filter Q xs)"
  by (induction xs) auto

lemma text_consistent_same_ledger:
  "likes st' = likes st \<Longrightarrow> posts st' = posts st \<Longrightarrow>
     text_consistent fw st' = text_consistent fw st"
  by (simp add: text_consistent_def one_like_per_text_def counters_exact_def
        likes_reference_posts_def likes_of_pair_def likes_of_post_def)

lemma text_consistentD:
  assumes "text_consistent fw st"
  shows "\<And>q v. length (filter (like_matches q v) (likes st)) \<le> 1"
    and "\<And>q r. posts st q = Some r \<Longrightarrow>
           no_of_likes r = int (length (filter (like_refers fw q) (likes st)))"
    and "\<And>l. l \<in> set (likes st) \<Longrightarrow> \<exists>q. like_refers fw q l \<and> posts st q \<noteq> None"
  using assms
  by (auto simp: text_consistent_def one_like_per_text_def counters_exact_def
        likes_reference_posts_def likes_of_pair_def likes_of_post_def)

lemma text_consistent_liked:
  assumes inv: "text_consistent fw st"
      and key: "to_key fw pid = Some k"
      and found: "posts st k = Some p"
      and none: "first_pos (like_matches pid u) (likes st) = None"
  shows "text_consistent fw
           (st\<lparr>likes := likes st @ [\<lparr>like_post_id = pid, like_username = u\<rparr>],
               posts := (posts st)(k \<mapsto> p\<lparr>no_of_likes := no_of_likes p + 1\<rparr>)\<rparr>)"
    (is "text_consistent fw ?st'")
proof -
  note D = text_consistentD [OF inv]
  from none have empty: "filter (like_matches pid u) (likes st) = []"
    by (simp add: first_pos_None_iff)
  have a: "one_like_per_text ?st'"
    using D(1) empty by (auto simp: one_like_per_text_def likes_of_pair_def like_matches_def)
  have b: "counters_exact fw ?st'"
    using D(2) found key by (auto simp: counters_exact_def likes_of_post_def like_refers_def)
  have c: "likes_reference_posts fw ?st'"
    unfolding likes_reference_posts_def
  proof
    fix l
    assume "l \<in> set (likes ?st')"
    then consider "l \<in> set (likes st)" | "l = \<lparr>like_post_id = pid, like_username = u\<rparr>"
      by auto
    then show "\<exists>q. like_refers fw q l \<and> posts ?st' q \<noteq> None"
    proof cases
      case 1
      from D(3) [OF this] obtain q where "like_refers fw q l" "posts st q \<noteq> None"
        by blast
      then have "like_refers fw q l \<and> posts ?st' q \<noteq> None"
        by simp
      then show ?thesis ..
    next
      case 2
      with key have "like_refers fw k l \<and> posts ?st' k \<noteq> None"
        by (simp add: like_refers_def)
      then show ?thesis ..
    qed
  qed
  from a b c show ?thesis
    by (simp add: text_consistent_def)
qed

lemma text_consistent_unliked:
  assumes inv: "text_consistent fw st"
      and key: "to_key fw pid = Some k"
      and found: "posts st k = Some p"
      and some: "first_pos (like_matches pid u) (likes st) = Some i"
  shows "text_consistent fw
           (st\<lparr>likes := delete_at i (likes st),
               posts := (posts st)(k \<mapsto> p\<lparr>no_of_likes := no_of_likes p - 1\<rparr>)\<rparr>)"
    (is "text_consistent fw ?st'")
proof -
  note D = text_consistentD [OF inv]
  from first_pos_SomeD [OF some]
  have i: "i < length (likes st)" and "like_post_id (likes st ! i) = pid"
    by (simp_all add: like_matches_def)
  with key have row: "like_refers fw k (likes st ! i)"
    by (simp add: like_refers_def)
  have a: "one_like_per_text ?st'"
    using D(1) length_filter_delete_at_le [OF i]
    by (auto simp: one_like_per_text_def likes_of_pair_def intro: order_trans)
  have hit: "Suc (length (filter (like_refers fw k) (delete_at i (likes st)))) =
               length (filter (like_refers fw k) (likes st))"
    using i row by (rule filter_delete_at_hit)
  have miss: "\<And>q. q \<noteq> k \<Longrightarrow>
               filter (like_refers fw q) (delete_at i (likes st)) =
               filter (like_refers fw q) (likes st)"
    using i row by (intro filter_delete_at_miss) (auto simp: like_refers_def)
  have b: "counters_exact fw ?st'"
    unfolding counters_exact_def likes_of_post_def
  proof (intro allI impI)
    fix q r
    assume r: "posts ?st' q = Some r"
    show "no_of_likes r = int (length (filter (like_refers fw q) (likes ?st')))"
    proof (cases "q = k")
      case True
      with r have "no_of_likes r = no_of_likes p - 1"
        by auto
      with D(2) [OF found] hit True show ?thesis
        by simp
    next
      case False
      with r have "posts st q = Some r"
        by simp
      from D(2) [OF this] miss [OF False] show ?thesis
        by simp
    qed
  qed
  have c: "likes_reference_posts fw ?st'"
    unfolding likes_reference_posts_def
  proof
    fix l
    assume "l \<in> set (likes ?st')"
    with set_delete_at [of i "likes st"] have "l \<in> set (likes st)"
      by auto
    from D(3) [OF this] obtain q where "like_refers fw q l" "posts st q \<noteq> None"
      by blast
    then have "like_refers fw q l \<and> posts ?st' q \<noteq> None"
      by simp
    then show "\<exists>q. like_refers fw q l \<and> posts ?st' q \<noteq> None" ..
  qed
  from a b c show ?thesis
    by (simp add: text_consistent_def)
qed

lemma like_post_view_consistent:
  "text_consistent fw st \<Longrightarrow> text_consistent fw (snd (like_post_view fw u req st))"
  by (auto simp: like_post_view_def text_consistent_liked text_consistent_unliked
           split: option.splits)

lemma Post_objects_create_consistent:
  assumes inv: "text_consistent fw st" and made: "Post_objects_create new_id u img c st = Inr st1"
  shows "text_consistent fw st1"
proof -
  note D = text_consistentD [OF inv]
  from made obtain f where
    fresh: "posts st new_id = None" and
    st1: "st1 = st\<lparr>posts := (posts st)(new_id \<mapsto>
            \<lparr>post_user = u, image = Some f, caption = c, no_of_likes = 0\<rparr>)\<rparr>"
    by (auto simp: Post_objects_create_def split: option.splits if_splits)
  have unliked: "filter (like_refers fw new_id) (likes st) = []"
    unfolding filter_empty_conv
  proof
    fix l
    assume l: "l \<in> set (likes st)"
    from D(3) [OF l] obtain q where q: "like_refers fw q l" "posts st q \<noteq> None"
      by blast
    with fresh have "q \<noteq> new_id"
      by auto
    with q(1) show "\<not> like_refers fw new_id l"
      by (auto simp: like_refers_def)
  qed
  have a: "one_like_per_text st1"
    using D(1) by (simp add: st1 one_like_per_text_def likes_of_pair_def)
  have b: "counters_exact fw st1"
    using D(2) unliked by (auto simp: st1 counters_exact_def likes_of_post_def)
  have c: "likes_reference_posts fw st1"
    unfolding likes_reference_posts_def
  proof
    fix l
    assume "l \<in> set (likes st1)"
    then have "l \<in> set (likes st)"
      by (simp add: st1)
    from D(3) [OF this] obtain q where "like_refers fw q l" "posts st q \<noteq> None"
      by blast
    then have "like_refers fw q l \<and> posts st1 q \<noteq> None"
      by (simp add: st1)
    then show "\<exists>q. like_refers fw q l \<and> posts st1 q \<noteq> None" ..
  qed
  from a b c show ?thesis
    by (simp add: text_consistent_def)
qed

lemma upload_view_consistent:
  "text_consistent fw st \<Longrightarrow> text_consistent fw (snd (upload_view new_id u req st))"
  by (auto simp: upload_view_def Post_objects_create_consistent split: option.splits sum.splits)

lemma login_required_consistent:
  assumes "\<And>u. text_consistent fw st \<Longrightarrow> text_consistent fw (snd (v u req st))"
  shows "text_consistent fw st \<Longrightarrow> text_consistent fw (snd (login_required url v req st))"
  using assms by (auto simp: login_required_def split: option.splits)

lemma signup_ledger:
  "likes (snd (signup fw req st)) = likes st \<and> posts (snd (signup fw req st)) = posts st"
  by (auto simp: signup_def create_user_def login_def Profile_objects_create_def Let_def
           split: option.splits sum.splits if_splits)

lemma signin_ledger:
  "likes (snd (signin req st)) = likes st \<and> posts (snd (signin req st)) = posts st"
  by (auto simp: signin_def login_def split: option.splits sum.splits)

lemma settings_view_ledger:
  "likes (snd (settings_view form u req st)) = likes st \<and>
   posts (snd (settings_view form u req st)) = posts st"
  by (auto simp: settings_view_def settings_page_def form_save_def Profile_objects_create_def
           split: option.splits sum.splits error.splits)

lemma index_view_ledger: "snd (index_view u req st) = st"
  by (auto simp: index_view_def split: sum.splits)

lemma run_consistent:
  "text_consistent fw st \<Longrightarrow> text_consistent fw (snd (run fw c req st))"
proof (cases c)
  case Index
  assume "text_consistent fw st"
  then show ?thesis
    unfolding Index run.simps index_def
    by (rule login_required_consistent [rotated]) (simp add: index_view_ledger)
next
  case LikePost
  assume "text_consistent fw st"
  then show ?thesis
    unfolding LikePost run.simps like_post_def
    by (rule login_required_consistent [rotated]) (rule like_post_view_consistent)
next
  case Signup
  assume "text_consistent fw st"
  then show ?thesis
    by (simp add: Signup text_consistent_same_ledger [of "snd (signup fw req st)" st]
          signup_ledger)
next
  case ProfilePage
  assume "text_consistent fw st"
  then show ?thesis
    by (simp add: ProfilePage profile_def)
next
  case Signin
  assume "text_consistent fw st"
  then show ?thesis
    by (simp add: Signin text_consistent_same_ledger [of "snd (signin req st)" st]
          signin_ledger)
next
  case (Settings form)
  assume "text_consistent fw st"
  then show ?thesis
    unfolding Settings run.simps settings_def
    by (rule login_required_consistent [rotated])
       (simp add: text_consistent_same_ledger [of "snd (settings_view form _ req st)" st]
          settings_view_ledger)
next
  case Logout
  assume "text_consistent fw st"
  then show ?thesis
    by (simp add: Logout logout_def
          text_consistent_same_ledger
            [of "st\<lparr>sessions := (sessions st)(client req := None)\<rparr>" st])
next
  case (Upload new_id)
  assume "text_consistent fw st"
  then show ?thesis
    unfolding Upload run.simps upload_def
    by (rule login_required_consistent [rotated]) (rule upload_view_consistent)
qed

lemma execute_consistent:
  "text_consistent fw st \<Longrightarrow> text_consistent fw (execute fw cs st)"
proof (induction cs arbitrary: st)
  case Nil
  then show ?case by simp
next
  case (Cons a cs)
  obtain c req where a: "a = (c, req)"
    by (cases a)
  from Cons.prems have "text_consistent fw (snd (run fw c req st))"
    by (rule run_consistent)
  then have "text_consistent fw (execute fw cs (snd (run fw c req st)))"
    by (rule Cons.IH)
  then show ?case
    by (simp add: a)
qed

text \<open>
  One Like row per user and post gives one per user and text, since every row
  references a post; the converse needs that a key has one spelling only.
\<close>

lemma consistent_text:
  assumes "consistent fw st"
  shows "text_consistent fw st"
proof -
  from assms have pairs: "\<And>k u. likes_of_user_post fw st k u \<le> 1"
    and refs: "\<And>l. l \<in> set (likes st) \<Longrightarrow> \<exists>q. like_refers fw q l \<and> posts st q \<noteq> None"
    and rest: "counters_exact fw st" "likes_reference_posts fw st"
    by (auto simp: consistent_def one_like_per_pair_def likes_reference_posts_def)
  have "likes_of_pair st pid u \<le> 1" for pid u
  proof (cases "to_key fw pid")
    case None
    have "filter (like_matches pid u) (likes st) = []"
      unfolding filter_empty_conv
    proof
      fix l
      assume "l \<in> set (likes st)"
      from refs [OF this] None show "\<not> like_matches pid u l"
        by (auto simp: like_refers_def like_matches_def)
    qed
    then show ?thesis
      by (simp add: likes_of_pair_def)
  next
    case (Some k)
    have "length (filter (like_matches pid u) (likes st)) \<le>
            length (filter (\<lambda>l. like_refers fw k l \<and> like_username l = u) (likes st))"
      using Some by (intro length_filter_mono) (auto simp: like_matches_def like_refers_def)
    with pairs [of k u] show ?thesis
      by (simp add: likes_of_pair_def likes_of_user_post_def)
  qed
  with rest show ?thesis
    by (simp add: text_consistent_def one_like_per_text_def)
qed

lemma text_consistent_unique_spelling:
  assumes unique: "unique_spelling fw" and inv: "text_consistent fw st"
  shows "consistent fw st"
proof -
  note D = text_consistentD [OF inv]
  have "likes_of_user_post fw st k u \<le> 1" for k u
  proof (cases "\<exists>s. to_key fw s = Some k")
    case False
    then have "filter (\<lambda>l. like_refers fw k l \<and> like_username l = u) (likes st) = []"
      by (auto simp: filter_empty_conv like_refers_def)
    then show ?thesis
      by (simp add: likes_of_user_post_def)
  next
    case True
    then obtain s where s: "to_key fw s = Some k"
      by blast
    have "length (filter (\<lambda>l. like_refers fw k l \<and> like_username l = u) (likes st)) \<le>
            length (filter (like_matches s u) (likes st))"
    proof (intro length_filter_mono)
      fix l
      assume "like_refers fw k l \<and> like_username l = u"
      with unique s show "like_matches s u l"
        unfolding unique_spelling_def like_refers_def like_matches_def by blast
    qed
    with D(1) [of s u] show ?thesis
      by (simp add: likes_of_user_post_def)
  qed
  with inv show ?thesis
    by (simp add: consistent_def text_consistent_def one_like_per_pair_def)
qed

lemma ledger_by_text:
  assumes "consistent fw st"
  shows "one_like_per_text (execute fw cs st) \<and> counters_exact fw (execute fw cs st)"
  using execute_consistent [OF consistent_text [OF assms], of cs]
  by (simp add: text_consistent_def)

lemma ledger_unique_spelling:
  assumes "unique_spelling fw" and "consistent fw st"
  shows "one_like_per_pair fw (execute fw cs st) \<and> counters_exact fw (execute fw cs st)"
  using text_consistent_unique_spelling
          [OF assms(1) execute_consistent [OF consistent_text [OF assms(2)], of cs]]
  by (simp add: consistent_def)

lemma empty_state_consistent: "consistent fw empty_state"
  by (simp add: consistent_def one_like_per_pair_def counters_exact_def
        likes_reference_posts_def likes_of_user_post_def empty_state_def)

lemmas view_defs =
  signup_def exists_row_def create_user_def authenticate_def objects_get_def
  check_password_def login_def Profile_objects_create_def empty_profile_def
  upload_def upload_view_def Post_objects_create_def login_required_def
  like_post_def like_post_view_def like_matches_def Let_def

text \<open>
  C3. The views keep at most one Like row per user and identifier text, and every
  counter equal to the number of Like rows that reference its post
  (\<open>ledger_by_text\<close>); with a key that has one spelling only that is at most one Like
  row per user and post (\<open>ledger_unique_spelling\<close>). With an integer key it is not:
  from the empty store alice signs up and uploads a post (key 1), bob signs up and likes
  it as 1, then asks again as 01. The second request finds the post, finds no Like row
  with the text 01, and adds one: bob has two Like rows for the post and its counter is 2.
\<close>

theorem second_spelling_breaks_ledger:
  "likes (execute integer_keys example_trace empty_state) = [bob_like] \<and>
   likes_of_user_post integer_keys (execute integer_keys example_trace empty_state) 1 ''bob''
     = 1 \<and>
   likes (execute integer_keys second_spelling_trace empty_state) =
     [bob_like, \<lparr>like_post_id = ''01'', like_username = ''bob''\<rparr>] \<and>
   likes_of_user_post integer_keys (execute integer_keys second_spelling_trace empty_state)
     1 ''bob'' = 2 \<and>
   map_option no_of_likes (posts (execute integer_keys second_spelling_trace empty_state) 1)
     = Some 2 \<and>
   \<not> one_like_per_pair integer_keys (execute integer_keys second_spelling_trace empty_state)"
proof -
  let ?s1 = "execute integer_keys example_trace empty_state"
  let ?s2 = "execute integer_keys second_spelling_trace empty_state"
  have one: "likes ?s1 = [bob_like]"
    by (simp add: example_trace_def empty_state_def request_defs example_defs view_defs)
  have two: "likes ?s2 = [bob_like, \<lparr>like_post_id = ''01'', like_username = ''bob''\<rparr>]"
    and counter: "map_option no_of_likes (posts ?s2 1) = Some 2"
    by (simp_all add: second_spelling_trace_def example_trace_def empty_state_def
          request_defs example_defs view_defs)
  have n1: "likes_of_user_post integer_keys ?s1 1 ''bob'' = 1"
    unfolding likes_of_user_post_def one by (simp add: like_refers_def example_defs)
  have n2: "likes_of_user_post integer_keys ?s2 1 ''bob'' = 2"
    unfolding likes_of_user_post_def two by (simp add: like_refers_def example_defs)
  have "\<not> likes_of_user_post integer_keys ?s2 1 ''bob'' \<le> 1"
    unfolding n2 by simp
  then have broken: "\<not> one_like_per_pair integer_keys ?s2"
    unfolding one_like_per_pair_def by blast
  from one two counter n1 n2 broken show ?thesis
    by simp
qed

section \<open>One profile per user\<close>

lemma accounts_same_owners:
  assumes "map profile_user (profiles st') = map profile_user (profiles st)"
      and "users st' = users st" and "sessions st' = sessions st"
  shows "accounts_consistent st' = accounts_consistent st"
  using assms by (simp add: accounts_consistent_def profiles_of_owners)

lemma accounts_user_added:
  "accounts_consistent st \<Longrightarrow> accounts_consistent (st\<lparr>users := users st @ [x]\<rparr>)"
  by (auto simp: accounts_consistent_def profiles_of_def)

lemma accounts_session_bound:
  assumes "accounts_consistent st" and "\<exists>x \<in> set (users st). username x = n"
  shows "accounts_consistent (st\<lparr>sessions := (sessions st)(c \<mapsto> n)\<rparr>)"
  using assms by (auto simp: accounts_consistent_def profiles_of_def)

lemma accounts_session_ended:
  "accounts_consistent st \<Longrightarrow> accounts_consistent (st\<lparr>sessions := (sessions st)(c := None)\<rparr>)"
  by (auto simp: accounts_consistent_def profiles_of_def)

lemma accounts_profile_created:
  assumes inv: "accounts_consistent st"
      and none: "profiles_of st n = 0"
      and known: "\<exists>x \<in> set (users st). username x = n"
  shows "accounts_consistent (Profile_objects_create n st)"
proof -
  have count: "\<And>v. profiles_of (Profile_objects_create n st) v =
                  profiles_of st v + (if v = n then 1 else 0)"
    by (simp add: profiles_of_def Profile_objects_create_def empty_profile_def)
  from inv have le: "\<And>v. profiles_of st v \<le> 1"
    by (simp add: accounts_consistent_def)
  have a: "\<forall>v. profiles_of (Profile_objects_create n st) v \<le> 1"
    using le none by (simp add: count)
  from inv known a show ?thesis
    by (auto simp: accounts_consistent_def Profile_objects_create_def empty_profile_def)
qed

lemma unknown_name_has_no_profile:
  assumes "accounts_consistent st" and "\<forall>x \<in> set (users st). username x \<noteq> n"
  shows "profiles_of st n = 0"
proof -
  from assms have "n \<notin> set (map profile_user (profiles st))"
    unfolding accounts_consistent_def by blast
  then show ?thesis
    by (auto simp: profiles_of_def filter_empty_conv)
qed

lemma authenticate_known:
  assumes "authenticate n pw st = Inr (Some u)"
  shows "u \<in> set (users st) \<and> username u = n"
proof -
  from assms obtain i where got: "objects_get (\<lambda>x. username x = n) (users st) = Inr (i, u)"
    by (auto simp: authenticate_def split: sum.splits error.splits if_splits)
  then have "filter (\<lambda>x. username x = n) (users st) = [u]"
    by (auto simp: objects_get_def split: list.splits option.splits)
  then have "u \<in> set (filter (\<lambda>x. username x = n) (users st))"
    by simp
  then show ?thesis
    by simp
qed

lemma signup_accounts:
  assumes inv: "accounts_consistent st"
  shows "accounts_consistent (snd (signup fw req st))"
proof (cases "\<exists>n e pw u st1. req_method req = ''POST'' \<and> POST req ''username'' = Some n \<and>
          POST req ''email'' = Some e \<and> POST req ''password'' = Some pw \<and>
          POST req ''password2'' = Some pw \<and>
          \<not> exists_row (\<lambda>u. email u = e) (users st) \<and>
          \<not> exists_row (\<lambda>u. username u = n) (users st) \<and>
          create_user fw n e pw st = Inr (u, st1)")
  case False
  then have "snd (signup fw req st) = st"
    by (auto simp: signup_def split: option.splits sum.splits)
  with inv show ?thesis
    by simp
next
  case True
  then obtain n e pw u st1 where
    f: "req_method req = ''POST''" "POST req ''username'' = Some n"
       "POST req ''email'' = Some e" "POST req ''password'' = Some pw"
       "POST req ''password2'' = Some pw"
       "\<not> exists_row (\<lambda>u. email u = e) (users st)"
       "\<not> exists_row (\<lambda>u. username u = n) (users st)"
    and created: "create_user fw n e pw st = Inr (u, st1)"
    by blast
  from created have st1: "st1 = st\<lparr>users := users st @ [u]\<rparr>"
    and fresh: "\<forall>x \<in> set (users st). username x \<noteq> username u"
    by (auto simp: create_user_def Let_def exists_row_def filter_empty_conv split: if_splits)
  have inv1: "accounts_consistent st1"
    using inv unfolding st1 by (rule accounts_user_added)
  show ?thesis
  proof (cases "authenticate n pw st1")
    case (Inl err)
    then have "snd (signup fw req st) = st1"
      by (simp add: signup_def f created)
    with inv1 show ?thesis
      by simp
  next
    case (Inr user_login)
    show ?thesis
    proof (cases user_login)
      case None
      with Inr have "snd (signup fw req st) = st1"
        by (simp add: signup_def f created login_def)
      with inv1 show ?thesis
        by simp
    next
      case (Some v)
      let ?st2 = "st1\<lparr>sessions := (sessions st1)(client req \<mapsto> username v)\<rparr>"
      from Some Inr have result: "snd (signup fw req st) = Profile_objects_create (username u) ?st2"
        by (simp add: signup_def f created login_def)
      from Some Inr authenticate_known [of n pw st1 v]
      have known_v: "\<exists>x \<in> set (users st1). username x = username v"
        by blast
      have inv2: "accounts_consistent ?st2"
        using inv1 known_v by (rule accounts_session_bound)
      have "profiles_of st (username u) = 0"
        using inv fresh by (rule unknown_name_has_no_profile)
      then have none2: "profiles_of ?st2 (username u) = 0"
        by (simp add: profiles_of_def st1)
      have known2: "\<exists>x \<in> set (users ?st2). username x = username u"
        by (simp add: st1)
      from accounts_profile_created [OF inv2 none2 known2] result show ?thesis
        by simp
    qed
  qed
qed

lemma signin_accounts:
  assumes inv: "accounts_consistent st"
  shows "accounts_consistent (snd (signin req st))"
proof (cases "\<exists>n pw u. req_method req = ''POST'' \<and> POST req ''username'' = Some n \<and>
          POST req ''password'' = Some pw \<and> authenticate n pw st = Inr (Some u)")
  case False
  then have "snd (signin req st) = st"
    by (auto simp: signin_def split: option.splits sum.splits)
  with inv show ?thesis
    by simp
next
  case True
  then obtain n pw u where
    f: "req_method req = ''POST''" "POST req ''username'' = Some n"
       "POST req ''password'' = Some pw" "authenticate n pw st = Inr (Some u)"
    by blast
  from authenticate_known [OF f(4)] have known: "\<exists>x \<in> set (users st). username x = username u"
    by blast
  have "snd (signin req st) = st\<lparr>sessions := (sessions st)(client req \<mapsto> username u)\<rparr>"
    by (simp add: signin_def f login_def)
  with accounts_session_bound [OF inv known] show ?thesis
    by simp
qed

lemma settings_view_accounts:
  assumes inv: "accounts_consistent st" and known: "\<exists>x \<in> set (users st). username x = u"
  shows "accounts_consistent (snd (settings_view form u req st))"
proof -
  let ?P = "\<lambda>p. profile_user p = u"
  obtain out st' where view: "settings_view form u req st = (out, st')"
    by (cases "settings_view form u req st")
  from inv have "profiles_of st u \<le> 1"
    by (simp add: accounts_consistent_def)
  then consider (none) "profiles_of st u = 0" | (one) "profiles_of st u = 1"
    by linarith
  then have "accounts_consistent st'"
  proof cases
    case none
    then have empty: "filter ?P (profiles st) = []"
      by (simp add: profiles_of_def)
    let ?st1 = "Profile_objects_create u st"
    from view objects_get_none [OF empty]
    have page: "settings_page form (length (profiles st)) (empty_profile u) req ?st1 = (out, st')"
      by (simp add: settings_view_def)
    have pre: "length (profiles st) < length (profiles ?st1)"
      "profile_user (empty_profile u) = profile_user (profiles ?st1 ! length (profiles st))"
      by (simp_all add: Profile_objects_create_def)
    from settings_page_owners [OF pre page]
    have owners: "map profile_user (profiles st') = map profile_user (profiles ?st1)"
      by simp
    from page have rest: "users st' = users ?st1" "sessions st' = sessions ?st1"
      by (auto simp: settings_page_def form_save_def split: if_splits option.splits)
    from accounts_profile_created [OF inv none known] accounts_same_owners [OF owners rest]
    show ?thesis
      by simp
  next
    case one
    then have "length (filter ?P (profiles st)) = 1"
      by (simp add: profiles_of_def)
    from length_one_conv [OF this] obtain x where x: "filter ?P (profiles st) = [x]"
      by blast
    from objects_get_one [OF x] obtain i
      where i: "objects_get ?P (profiles st) = Inr (i, x)" "i < length (profiles st)"
        "profiles st ! i = x"
      by blast
    from view i(1) have page: "settings_page form i x req st = (out, st')"
      by (simp add: settings_view_def)
    from i(3) have same: "profile_user x = profile_user (profiles st ! i)"
      by simp
    from settings_page_owners [OF i(2) same page]
    have owners: "map profile_user (profiles st') = map profile_user (profiles st)"
      by simp
    from page have rest: "users st' = users st" "sessions st' = sessions st"
      by (auto simp: settings_page_def form_save_def split: if_splits option.splits)
    from inv accounts_same_owners [OF owners rest] show ?thesis
      by simp
  qed
  with view show ?thesis
    by simp
qed

lemma accounts_same_accounts:
  assumes "profiles st' = profiles st" and "users st' = users st"
      and "sessions st' = sessions st"
  shows "accounts_consistent st' = accounts_consistent st"
  using assms accounts_same_owners [of st' st] by simp

lemma like_post_view_frame:
  "users (snd (like_post_view fw u req st)) = users st \<and>
   profiles (snd (like_post_view fw u req st)) = profiles st \<and>
   sessions (snd (like_post_view fw u req st)) = sessions st"
  by (simp add: like_post_view_def split: option.splits)

lemma like_post_view_accounts:
  "accounts_consistent st \<Longrightarrow> accounts_consistent (snd (like_post_view fw u req st))"
  using accounts_same_accounts [of "snd (like_post_view fw u req st)" st]
  by (simp add: like_post_view_frame)

lemma upload_view_frame:
  "users (snd (upload_view new_id u req st)) = users st \<and>
   profiles (snd (upload_view new_id u req st)) = profiles st \<and>
   sessions (snd (upload_view new_id u req st)) = sessions st"
  by (auto simp: upload_view_def Post_objects_create_def split: option.splits sum.splits)

lemma upload_view_accounts:
  "accounts_consistent st \<Longrightarrow> accounts_consistent (snd (upload_view new_id u req st))"
  using accounts_same_accounts [of "snd (upload_view new_id u req st)" st]
  by (simp add: upload_view_frame)

lemma login_required_accounts:
  assumes "\<And>u. accounts_consistent st \<Longrightarrow> \<exists>x \<in> set (users st). username x = u \<Longrightarrow>
             accounts_consistent (snd (v u req st))"
  shows "accounts_consistent st \<Longrightarrow> accounts_consistent (snd (login_required url v req st))"
proof -
  assume inv: "accounts_consistent st"
  show ?thesis
  proof (cases "request_user st req")
    case None
    with inv show ?thesis
      by (simp add: login_required_def)
  next
    case (Some u)
    with inv have "\<exists>x \<in> set (users st). username x = u"
      unfolding accounts_consistent_def request_user_def by blast
    from assms [OF inv this] Some show ?thesis
      by (simp add: login_required_def)
  qed
qed

lemma run_accounts:
  "accounts_consistent st \<Longrightarrow> accounts_consistent (snd (run fw c req st))"
proof (cases c)
  case Index
  assume "accounts_consistent st"
  then show ?thesis
    unfolding Index run.simps index_def
    by (rule login_required_accounts [rotated]) (simp add: index_view_ledger)
next
  case LikePost
  assume "accounts_consistent st"
  then show ?thesis
    unfolding LikePost run.simps like_post_def
    by (rule login_required_accounts [rotated]) (rule like_post_view_accounts)
next
  case Signup
  assume "accounts_consistent st"
  then show ?thesis
    by (simp add: Signup signup_accounts)
next
  case ProfilePage
  assume "accounts_consistent st"
  then show ?thesis
    by (simp add: ProfilePage profile_def)
next
  case Signin
  assume "accounts_consistent st"
  then show ?thesis
    by (simp add: Signin signin_accounts)
next
  case (Settings form)
  assume "accounts_consistent st"
  then show ?thesis
    unfolding Settings run.simps settings_def
    by (rule login_required_accounts [rotated]) (rule settings_view_accounts)
next
  case Logout
  assume "accounts_consistent st"
  then show ?thesis
    by (simp add: Logout logout_def accounts_session_ended)
next
  case (Upload new_id)
  assume "accounts_consistent st"
  then show ?thesis
    unfolding Upload run.simps upload_def
    by (rule login_required_accounts [rotated]) (rule upload_view_accounts)
qed

lemma execute_accounts:
  "accounts_consistent st \<Longrightarrow> accounts_consistent (execute fw cs st)"
proof (induction cs arbitrary: st)
  case Nil
  then show ?case by simp
next
  case (Cons a cs)
  obtain c req where a: "a = (c, req)"
    by (cases a)
  from Cons.prems have "accounts_consistent (snd (run fw c req st))"
    by (rule run_accounts)
  then have "accounts_consistent (execute fw cs (snd (run fw c req st)))"
    by (rule Cons.IH)
  then show ?case
    by (simp add: a)
qed

lemma one_profile_per_user_kept:
  "profiles_of (execute fw cs empty_state) u \<le> 1"
proof -
  have "accounts_consistent empty_state"
    by (simp add: accounts_consistent_def profiles_of_def empty_state_def)
  then have "accounts_consistent (execute fw cs empty_state)"
    by (rule execute_accounts)
  then show ?thesis
    by (simp add: accounts_consistent_def)
qed

end
